theory Spec2Isabelle
  imports Main
begin

section \<open>Data model\<close>

text \<open>
  The program (main.js) keeps a SQLite database in memory through sql.js, with one table

  \<^verbatim>\<open>CREATE TABLE IF NOT EXISTS network_log (
       id INTEGER PRIMARY KEY AUTOINCREMENT, timestamp TEXT, status TEXT);\<close>

  A row of that table is a \<open>log_row\<close>. The renderer sends a \<open>logEntry\<close> object with the
  fields \<open>status\<close> and \<open>timestamp\<close>.
\<close>

record log_row =
  log_id :: int
  log_timestamp :: string
  log_status :: string

record logEntry =
  status :: string
  timestamp :: string

text \<open>
  The table \<open>network_log\<close> as SQLite stores it: its rows, and the entry that the
  \<open>AUTOINCREMENT\<close> keyword makes SQLite keep for the table in \<open>sqlite_sequence\<close>: the
  largest rowid the table has ever held (0 while it has held none). A database with no
  such table is \<open>None\<close>.
\<close>

record log_table =
  table_rows :: "log_row list"
  table_seq :: int

type_synonym database = "log_table option"

text \<open>
  A buffer of bytes, as far as SQLite tells buffers apart: the image of a database
  (what \<open>db.export()\<close> returns for it), or bytes that are no database image. A buffer of
  length zero is read by SQLite as the database with no tables.
\<close>

datatype filebuffer = DbImage database | Bytes string

fun decode :: "filebuffer \<Rightarrow> database option" where
  "decode (DbImage d) = Some d"
| "decode (Bytes s) = (if s = [] then Some None else None)"

text \<open>A JavaScript error object: its \<open>code\<close> property (file system errors have one) and its message.\<close>

datatype js_error = JsError (err_code: "string option") (err_message: string)

section \<open>sql.js\<close>

text \<open>
  A \<open>sql.Database\<close> object owns a file in the engine's virtual file system: the
  constructor copies the buffer it is given there (or starts with no file) and calls
  \<open>sqlite3_open\<close>, which does not read the file. Every statement reads it, and raises
  \<open>file is not a database\<close> if it holds no database image. \<open>export()\<close> returns the
  file's bytes. So a database object is modelled by the current contents of its file.
\<close>

definition new_Database :: "filebuffer option \<Rightarrow> filebuffer" where
  "new_Database data = (case data of None \<Rightarrow> DbImage None | Some buf \<Rightarrow> buf)"

definition db_export :: "filebuffer \<Rightarrow> filebuffer" where
  "db_export h = h"

definition not_a_database :: js_error where
  "not_a_database = JsError None ''file is not a database''"

definition no_such_table :: js_error where
  "no_such_table = JsError None ''no such table: network_log''"

definition database_full :: js_error where
  "database_full = JsError None ''database or disk is full''"

definition MAX_ROWID :: int where
  "MAX_ROWID = 9223372036854775807"

text \<open>\<^verbatim>\<open>CREATE TABLE IF NOT EXISTS network_log (...)\<close>\<close>

definition run_create_table :: "filebuffer \<Rightarrow> js_error + filebuffer" where
  "run_create_table h =
     (case decode h of
        None \<Rightarrow> Inl not_a_database
      | Some None \<Rightarrow> Inr (DbImage (Some \<lparr>table_rows = [], table_seq = 0\<rparr>))
      | Some (Some t) \<Rightarrow> Inr (DbImage (Some t)))"

text \<open>\<^verbatim>\<open>SELECT MAX(id) AS max_id FROM network_log\<close>: one row with one cell, \<open>NULL\<close>
  (here \<open>None\<close>) when the table is empty. Rowids are kept as integers; sql.js hands them to
  JavaScript as numbers, which are exact up to \<open>2^53\<close>.\<close>

definition max_id :: "log_row list \<Rightarrow> int option" where
  "max_id rows = (case rows of [] \<Rightarrow> None | r # rs \<Rightarrow> Some (fold max (map log_id rs) (log_id r)))"

definition exec_max_id :: "filebuffer \<Rightarrow> js_error + int option" where
  "exec_max_id h =
     (case decode h of
        None \<Rightarrow> Inl not_a_database
      | Some None \<Rightarrow> Inl no_such_table
      | Some (Some t) \<Rightarrow> Inr (max_id (table_rows t)))"

text \<open>
  \<^verbatim>\<open>INSERT INTO network_log (timestamp, status) VALUES (?, ?)\<close>. With
  \<open>AUTOINCREMENT\<close> the new rowid is one more than the larger of the largest rowid in the
  table and the table's \<open>sqlite_sequence\<close> entry, which then becomes the new rowid. When
  either has reached the largest 64-bit integer the insert fails with \<open>SQLITE_FULL\<close>.
\<close>

definition next_rowid :: "log_table \<Rightarrow> int" where
  "next_rowid t =
     max (case max_id (table_rows t) of None \<Rightarrow> 1 | Some m \<Rightarrow> m + 1) (table_seq t + 1)"

definition run_insert :: "string \<Rightarrow> string \<Rightarrow> filebuffer \<Rightarrow> js_error + filebuffer" where
  "run_insert ts st h =
     (case decode h of
        None \<Rightarrow> Inl not_a_database
      | Some None \<Rightarrow> Inl no_such_table
      | Some (Some t) \<Rightarrow>
          if MAX_ROWID < next_rowid t then Inl database_full
          else Inr (DbImage (Some
                 \<lparr>table_rows = table_rows t @
                    [\<lparr>log_id = next_rowid t, log_timestamp = ts, log_status = st\<rparr>],
                  table_seq = next_rowid t\<rparr>)))"

text \<open>\<^verbatim>\<open>DELETE FROM network_log;\<close> removes the rows and leaves \<open>sqlite_sequence\<close> as it is.\<close>

definition run_delete_all :: "filebuffer \<Rightarrow> js_error + filebuffer" where
  "run_delete_all h =
     (case decode h of
        None \<Rightarrow> Inl not_a_database
      | Some None \<Rightarrow> Inl no_such_table
      | Some (Some t) \<Rightarrow> Inr (DbImage (Some (t\<lparr>table_rows := []\<rparr>))))"

text \<open>\<^verbatim>\<open>SELECT id, timestamp, status FROM network_log ORDER BY id ASC;\<close> and
  \<^verbatim>\<open>... ORDER BY id DESC;\<close>. \<open>db.exec\<close> returns no result set at all when the
  statement yields no row; the empty list stands for that.\<close>

definition exec_select_asc :: "filebuffer \<Rightarrow> js_error + log_row list" where
  "exec_select_asc h =
     (case decode h of
        None \<Rightarrow> Inl not_a_database
      | Some None \<Rightarrow> Inl no_such_table
      | Some (Some t) \<Rightarrow> Inr (sort_key log_id (table_rows t)))"

definition exec_select_desc :: "filebuffer \<Rightarrow> js_error + log_row list" where
  "exec_select_desc h =
     (case decode h of
        None \<Rightarrow> Inl not_a_database
      | Some None \<Rightarrow> Inl no_such_table
      | Some (Some t) \<Rightarrow> Inr (rev (sort_key log_id (table_rows t))))"

section \<open>The file system and the process\<close>

text \<open>
  The files by path, and for each path the error, if any, that \<open>fs.writeFileSync\<close>
  raises there (permissions, a full disk, a missing directory).
\<close>

record filesystem =
  files :: "string \<Rightarrow> filebuffer option"
  write_fault :: "string \<Rightarrow> js_error option"

definition readFileSync :: "string \<Rightarrow> filesystem \<Rightarrow> js_error + filebuffer" where
  "readFileSync p f =
     (case files f p of
        None \<Rightarrow> Inl (JsError (Some ''ENOENT'') (''ENOENT: no such file or directory, open '' @ p))
      | Some buf \<Rightarrow> Inr buf)"

definition writeFileSync :: "string \<Rightarrow> filebuffer \<Rightarrow> filesystem \<Rightarrow> js_error + filesystem" where
  "writeFileSync p buf f =
     (case write_fault f p of
        Some e \<Rightarrow> Inl e
      | None \<Rightarrow> Inr (f\<lparr>files := (files f)(p \<mapsto> buf)\<rparr>))"

datatype console_line = Log string | Err string

datatype outcome = Returned | Thrown js_error

text \<open>
  The state of the main process and of what it acts on: the globals \<open>db\<close> and
  \<open>lastLogId\<close>, the disk, the console, the open windows with the messages sent on the
  \<open>backup-status\<close> channel, whether the hourly timer is set and whether the application
  has been asked to quit, and the directories Electron reports. \<open>db\<close> is \<open>None\<close>
  while the global is undefined; \<open>lastLogId\<close> holds a number or \<open>null\<close> (\<open>None\<close>), the
  value of a \<open>MAX(id)\<close> cell over an empty table.
\<close>

record world =
  db :: "filebuffer option"
  lastLogId :: "int option"
  fs :: filesystem
  console :: "console_line list"
  windows :: nat
  backup_status :: "string list"
  interval_set :: bool
  quit_called :: bool
  userData :: string
  downloads :: string

definition dbPath :: "world \<Rightarrow> string" where
  "dbPath w = userData w @ ''/network_log.db''"

definition backupDir :: "world \<Rightarrow> string" where
  "backupDir w = userData w @ ''/network_backups''"

definition console_log :: "string \<Rightarrow> world \<Rightarrow> world" where
  "console_log s w = w\<lparr>console := console w @ [Log s]\<rparr>"

definition console_error :: "string \<Rightarrow> world \<Rightarrow> world" where
  "console_error s w = w\<lparr>console := console w @ [Err s]\<rparr>"

section \<open>Core database functions\<close>

definition performBackup :: "string \<Rightarrow> world \<Rightarrow> outcome \<times> world" where
  "performBackup filePath w =
     (case db w of
        None \<Rightarrow> (Thrown (JsError None ''Database not initialized. Cannot perform backup.''), w)
      | Some h \<Rightarrow>
          (case writeFileSync filePath (db_export h) (fs w) of
             Inr f \<Rightarrow>
               (Returned,
                console_log (''[Persistence] Database saved/backed up to: '' @ filePath)
                  (w\<lparr>fs := f\<rparr>))
           | Inl error \<Rightarrow>
               if err_code error \<noteq> Some ''ENOENT''
               then (Thrown (JsError None (''Backup/Export failed: '' @ err_message error)), w)
               else (Returned, w)))"

text \<open>
  \<open>initializeDatabase\<close> from its step 2 on (the steps before load the engine and create
  the backup directory; they touch neither \<open>db\<close>, \<open>lastLogId\<close> nor the persistent file).
  Only reading the file and constructing the object are inside the first \<open>try\<close>; the
  \<open>CREATE TABLE\<close> statement is outside any \<open>try\<close>, so its error leaves the function.
\<close>

definition initializeDatabase :: "world \<Rightarrow> outcome \<times> world" where
  "initializeDatabase w =
     (let (h, line) =
        (case readFileSync (dbPath w) (fs w) of
           Inr filebuffer \<Rightarrow>
             (new_Database (Some filebuffer), ''Loaded persistent database from: '' @ dbPath w)
         | Inl error \<Rightarrow>
             (new_Database None, ''Created new in-memory SQL.js database.''));
          w1 = console_log line (w\<lparr>db := Some h\<rparr>)
      in case run_create_table h of
           Inl e \<Rightarrow> (Thrown e, w1)
         | Inr h' \<Rightarrow>
             (let w2 = console_log ''Network logs table ensured.'' (w1\<lparr>db := Some h'\<rparr>)
              in case exec_max_id h' of
                   Inr (Some m) \<Rightarrow> (Returned, w2\<lparr>lastLogId := Some m\<rparr>)
                 | Inr None \<Rightarrow> (Returned, w2\<lparr>lastLogId := Some 0\<rparr>)
                 | Inl e \<Rightarrow>
                     (Returned,
                      (console_error
                         (''Failed to get MAX(id), resetting counter to 0: '' @ err_message e) w2)
                        \<lparr>lastLogId := Some 0\<rparr>)))"

text \<open>
  \<open>autoHourlyBackup\<close>. Of the \<open>Date\<close> it creates the function uses two renderings,
  \<open>toISOString()\<close> and \<open>toLocaleTimeString()\<close>; they are the fields of \<open>date\<close>.
  \<open>replace(/[:.]/g, '-')\<close> is \<open>replace_colon_dot\<close>. The first \<open>performBackup\<close> is outside
  the \<open>try\<close>: what it throws leaves the function (the promise is rejected).
\<close>

record date =
  toISOString :: string
  toLocaleTimeString :: string

definition replace_colon_dot :: "string \<Rightarrow> string" where
  "replace_colon_dot s = map (\<lambda>c. if c = CHR '':'' \<or> c = CHR ''.'' then CHR ''-'' else c) s"

definition backupFileName :: "date \<Rightarrow> string" where
  "backupFileName now = ''network_log_backup_'' @ replace_colon_dot (toISOString now) @ ''.db''"

definition backupFilePath :: "date \<Rightarrow> world \<Rightarrow> string" where
  "backupFilePath now w = backupDir w @ ''/'' @ backupFileName now"

definition autoHourlyBackup :: "date \<Rightarrow> world \<Rightarrow> outcome \<times> world" where
  "autoHourlyBackup now w =
     (case db w of
        None \<Rightarrow> (Returned, w)
      | Some _ \<Rightarrow>
          (case performBackup (dbPath w) w of
             (Thrown e, w1) \<Rightarrow> (Thrown e, w1)
           | (Returned, w1) \<Rightarrow>
               (case performBackup (backupFilePath now w1) w1 of
                  (Returned, w2) \<Rightarrow>
                    (let w3 = console_log
                          (''[Auto Backup] Archival backup created successfully: '' @
                             backupFileName now) w2
                     in (Returned,
                         if 0 < windows w3
                         then w3\<lparr>backup_status := backup_status w3 @
                                 [''Last Auto Backup: '' @ toLocaleTimeString now]\<rparr>
                         else w3))
                | (Thrown error, w2) \<Rightarrow>
                    (Returned, console_error (''Auto Backup failed: '' @ err_message error) w2))))"

section \<open>Application life cycle\<close>

text \<open>A process starts with \<open>db\<close> undefined and \<open>lastLogId = 0\<close>, on the disk it finds.\<close>

definition process_start :: "string \<Rightarrow> string \<Rightarrow> filesystem \<Rightarrow> world" where
  "process_start user_data down f =
     \<lparr>db = None, lastLogId = Some 0, fs = f, console = [], windows = 0, backup_status = [],
      interval_set = False, quit_called = False, userData = user_data, downloads = down\<rparr>"

definition createWindow :: "world \<Rightarrow> world" where
  "createWindow w = w\<lparr>windows := windows w + 1\<rparr>"

text \<open>The \<open>before-quit\<close> handler, and \<open>app.quit()\<close>, which emits \<open>before-quit\<close> first.\<close>

definition before_quit :: "world \<Rightarrow> world" where
  "before_quit w =
     (case db w of
        None \<Rightarrow> w
      | Some _ \<Rightarrow>
          (case performBackup (dbPath w) w of
             (Returned, w1) \<Rightarrow>
               console_log ''Final save to persistent file complete before quit.'' w1
           | (Thrown error, w1) \<Rightarrow>
               console_error (''Final persistence save failed: '' @ err_message error) w1))"

definition app_quit :: "world \<Rightarrow> world" where
  "app_quit w = (before_quit w)\<lparr>quit_called := True\<rparr>"

text \<open>The callback of \<open>app.whenReady()\<close>: \<open>setInterval\<close> is recorded in \<open>interval_set\<close>.
  (The \<open>activate\<close> handler it registers only opens a window.)\<close>

definition whenReady :: "world \<Rightarrow> world" where
  "whenReady w =
     (case initializeDatabase w of
        (Returned, w1) \<Rightarrow>
          console_log ''Hourly auto-backup scheduled to run every 1 hour(s).''
            ((createWindow w1)\<lparr>interval_set := True\<rparr>)
      | (Thrown error, w1) \<Rightarrow>
          app_quit
            (console_error (''Critical error during app initialization: '' @ err_message error)
               w1))"

section \<open>IPC handlers\<close>

text \<open>
  The reply of \<open>insert-log\<close> and \<open>clear-logs\<close>: \<open>{ success: true }\<close> or
  \<open>{ success: false, error: message }\<close>.
\<close>

datatype reply = Success | Failure string

definition load_logs :: "world \<Rightarrow> log_row list \<times> world" where
  "load_logs w =
     (case db w of
        None \<Rightarrow> ([], w)
      | Some h \<Rightarrow>
          (case exec_select_desc h of
             Inr res \<Rightarrow> (res, w)
           | Inl error \<Rightarrow>
               ([], console_error
                      (''Error reading logs from SQL database: '' @ err_message error) w)))"

definition insert_log :: "logEntry \<Rightarrow> world \<Rightarrow> reply \<times> world" where
  "insert_log entry w =
     (case db w of
        None \<Rightarrow> (Failure ''Database not ready.'', w)
      | Some h \<Rightarrow>
          (case run_insert (timestamp entry) (status entry) h of
             Inl error \<Rightarrow>
               (Failure (err_message error),
                console_error (''SQL.js insert failed: '' @ err_message error) w)
           | Inr h' \<Rightarrow>
               (case exec_max_id h' of
                  Inl error \<Rightarrow>
                    (Failure (err_message error),
                     console_error (''SQL.js insert failed: '' @ err_message error)
                       (w\<lparr>db := Some h'\<rparr>))
                | Inr m \<Rightarrow> (Success, w\<lparr>db := Some h', lastLogId := m\<rparr>))))"

definition clear_logs :: "world \<Rightarrow> reply \<times> world" where
  "clear_logs w =
     (case db w of
        None \<Rightarrow> (Failure ''Database not ready.'', w)
      | Some h \<Rightarrow>
          (case run_delete_all h of
             Inl error \<Rightarrow>
               (Failure (err_message error),
                console_error (''Error clearing SQL database: '' @ err_message error) w)
           | Inr h' \<Rightarrow>
               (let w1 = w\<lparr>db := Some h', lastLogId := Some 0\<rparr>
                in case performBackup (dbPath w1) w1 of
                     (Returned, w2) \<Rightarrow>
                       (Success, console_log ''SQL log cleared and persistent file updated.'' w2)
                   | (Thrown error, w2) \<Rightarrow>
                       (Failure (err_message error),
                        console_error (''Error clearing SQL database: '' @ err_message error)
                          w2))))"

text \<open>
  \<open>export-log-csv\<close>. A number in a template literal is written in decimal (\<open>show_int\<close>);
  \<open>Array.prototype.join\<close> is \<open>join\<close>. The handler shows a save dialog, whose answer is
  \<open>save_dialog\<close> (an undefined \<open>filePath\<close> is the empty string), and writes the text to the
  chosen path. The query is outside any \<open>try\<close>.
\<close>

fun show_nat :: "nat \<Rightarrow> string" where
  "show_nat n =
     (if n < 10 then [''0123456789'' ! n]
      else show_nat (n div 10) @ [''0123456789'' ! (n mod 10)])"

declare show_nat.simps [simp del]

definition show_int :: "int \<Rightarrow> string" where
  "show_int i = (if i < 0 then CHR ''-'' # show_nat (nat (- i)) else show_nat (nat i))"

fun join :: "string \<Rightarrow> string list \<Rightarrow> string" where
  "join sep [] = []"
| "join sep [x] = x"
| "join sep (x # y # ys) = x @ sep @ join sep (y # ys)"

definition csv_row :: "log_row \<Rightarrow> string" where
  "csv_row log =
     show_int (log_id log) @ [CHR '','', CHR 0x22] @ log_timestamp log @ [CHR 0x22, CHR '','']
       @ log_status log"

definition csvContent :: "log_row list \<Rightarrow> string" where
  "csvContent logs =
     join [CHR 0x0A] (join '','' [''ID'', ''Timestamp_ISO'', ''Status''] # map csv_row logs)"

definition defaultPath :: "string \<Rightarrow> world \<Rightarrow> string" where
  "defaultPath today_iso w =
     downloads w @ ''/network_log_export_'' @ take 10 today_iso @ ''.csv''"

record save_dialog =
  canceled :: bool
  filePath :: string

datatype export_reply = ExportReply (export_success: bool) (export_message: string)

definition export_log_csv :: "save_dialog \<Rightarrow> world \<Rightarrow> (js_error + export_reply) \<times> world" where
  "export_log_csv dialog w =
     (case db w of
        None \<Rightarrow> (Inr (ExportReply False ''Database not ready.''), w)
      | Some h \<Rightarrow>
          (case exec_select_asc h of
             Inl error \<Rightarrow> (Inl error, w)
           | Inr logs \<Rightarrow>
               if logs = [] then (Inr (ExportReply False ''No logs to export.''), w)
               else if canceled dialog \<or> filePath dialog = []
               then (Inr (ExportReply False ''Export canceled by user.''), w)
               else
                 (case writeFileSync (filePath dialog) (Bytes (csvContent logs)) (fs w) of
                    Inr f \<Rightarrow>
                      (Inr (ExportReply True
                              (''CSV exported successfully to: '' @ filePath dialog)),
                       w\<lparr>fs := f\<rparr>)
                  | Inl error \<Rightarrow>
                      (Inr (ExportReply False (''CSV Export failed: '' @ err_message error)),
                       w))))"

section \<open>Notions used by the properties\<close>

subsection \<open>Tables and stores\<close>

text \<open>
  \<open>last_id_of\<close> is what step 4 of \<open>initializeDatabase\<close> computes from a table.
  \<open>table_ok\<close> is what SQLite maintains for an \<open>AUTOINCREMENT\<close> table: the
  \<open>sqlite_sequence\<close> entry is not negative and no row has an id above it. \<open>appended\<close> is
  the table after one \<open>INSERT\<close>. \<open>stored_rows\<close> and \<open>stored_seq\<close> read the table of the
  process, \<open>store_ok\<close> says that it is there and well formed, and \<open>synced\<close> that it is there
  and that \<open>lastLogId\<close> is what \<open>initializeDatabase\<close> would compute from it.
\<close>

definition last_id_of :: "log_table \<Rightarrow> int" where
  "last_id_of t = (case max_id (table_rows t) of None \<Rightarrow> 0 | Some m \<Rightarrow> m)"

definition table_ok :: "log_table \<Rightarrow> bool" where
  "table_ok t = (0 \<le> table_seq t \<and> list_all (\<lambda>r. log_id r \<le> table_seq t) (table_rows t))"

definition appended :: "logEntry \<Rightarrow> log_table \<Rightarrow> log_table" where
  "appended entry t =
     \<lparr>table_rows = table_rows t @
        [\<lparr>log_id = next_rowid t, log_timestamp = timestamp entry, log_status = status entry\<rparr>],
      table_seq = next_rowid t\<rparr>"

definition stored_rows :: "world \<Rightarrow> log_row list" where
  "stored_rows w = (case db w of Some (DbImage (Some t)) \<Rightarrow> table_rows t | _ \<Rightarrow> [])"

definition stored_seq :: "world \<Rightarrow> int" where
  "stored_seq w = (case db w of Some (DbImage (Some t)) \<Rightarrow> table_seq t | _ \<Rightarrow> 0)"

definition store_ok :: "world \<Rightarrow> bool" where
  "store_ok w = (case db w of Some (DbImage (Some t)) \<Rightarrow> table_ok t | _ \<Rightarrow> False)"

definition synced :: "world \<Rightarrow> bool" where
  "synced w =
     (case db w of
        Some (DbImage (Some t)) \<Rightarrow> lastLogId w = Some (last_id_of t)
      | _ \<Rightarrow> False)"

subsection \<open>Runs of the application\<close>

text \<open>
  \<open>relaunch\<close> is a new process on the disk the old one left. \<open>flush_and_reload\<close> writes the
  persistent file with \<open>performBackup\<close> and loads it in a new process. \<open>inserts\<close> runs the
  \<open>insert-log\<close> handler on each entry in turn.

  A lifetime is a list of events after a load: inserts, clears, hourly ticks, and quitting
  (with the final save of \<open>before-quit\<close>) followed by a new start of the application.
  \<open>new_ids\<close> are the ids of the rows an event adds at the end of the table,
  \<open>assigned_ids\<close> those of a whole lifetime, in the order of assignment.
  \<open>lifetime_inv\<close> is the invariant of a lifetime.
\<close>

definition relaunch :: "world \<Rightarrow> world" where
  "relaunch w = process_start (userData w) (downloads w) (fs w)"

definition flush_and_reload :: "world \<Rightarrow> world" where
  "flush_and_reload w = snd (initializeDatabase (relaunch (snd (performBackup (dbPath w) w))))"

definition inserts :: "logEntry list \<Rightarrow> world \<Rightarrow> world" where
  "inserts es w = foldl (\<lambda>w' e. snd (insert_log e w')) w es"

datatype event = Insert logEntry | Clear | Tick date | QuitAndRestart

fun step :: "event \<Rightarrow> world \<Rightarrow> world" where
  "step (Insert entry) w = snd (insert_log entry w)"
| "step Clear w = snd (clear_logs w)"
| "step (Tick now) w = snd (autoHourlyBackup now w)"
| "step QuitAndRestart w = whenReady (relaunch (app_quit w))"

definition new_ids :: "event \<Rightarrow> world \<Rightarrow> int list" where
  "new_ids ev w = map log_id (drop (length (stored_rows w)) (stored_rows (step ev w)))"

fun assigned_ids :: "event list \<Rightarrow> world \<Rightarrow> int list" where
  "assigned_ids [] w = []"
| "assigned_ids (ev # evs) w = new_ids ev w @ assigned_ids evs (step ev w)"

definition lifetime_inv :: "world \<Rightarrow> log_table \<Rightarrow> bool" where
  "lifetime_inv w t \<longleftrightarrow>
     db w = Some (DbImage (Some t)) \<and> table_ok t \<and> write_fault (fs w) (dbPath w) = None"

subsection \<open>The disk and the clock\<close>

text \<open>
  \<open>write_enoent_absent\<close> is what POSIX gives for a path: opening it for writing fails with
  \<open>ENOENT\<close> only when a directory of the path is missing, and then there is no file at the
  path. \<open>backup_returns\<close> says when \<open>performBackup\<close> at a path does not throw: the write
  succeeds or fails with \<open>ENOENT\<close>. \<open>repaired\<close> is the same world with other write errors
  (the disk was repaired, or broke, between two ticks).

  \<open>iso_format\<close> is the shape of what \<open>toISOString()\<close> returns for a date of a year from 0
  to 9999, \<open>YYYY-MM-DDTHH:mm:ss.sssZ\<close>: in \<open>iso_template\<close> a \<open>d\<close> stands for a digit.
\<close>

definition write_enoent_absent :: "filesystem \<Rightarrow> string \<Rightarrow> bool" where
  "write_enoent_absent f p =
     (case write_fault f p of
        None \<Rightarrow> True
      | Some e \<Rightarrow> err_code e = Some ''ENOENT'' \<longrightarrow> files f p = None)"

definition backup_returns :: "filesystem \<Rightarrow> string \<Rightarrow> bool" where
  "backup_returns f p =
     (case write_fault f p of None \<Rightarrow> True | Some e \<Rightarrow> err_code e = Some ''ENOENT'')"

definition repaired :: "(string \<Rightarrow> js_error option) \<Rightarrow> world \<Rightarrow> world" where
  "repaired g w = w\<lparr>fs := (fs w)\<lparr>write_fault := g\<rparr>\<rparr>"

definition is_digit :: "char \<Rightarrow> bool" where
  "is_digit c = (c \<in> set ''0123456789'')"

definition iso_template :: string where
  "iso_template = ''dddd-dd-ddTdd:dd:dd.dddZ''"

definition iso_char :: "char \<Rightarrow> char \<Rightarrow> bool" where
  "iso_char p c = (if p = CHR ''d'' then is_digit c else c = p)"

definition iso_format :: "string \<Rightarrow> bool" where
  "iso_format s = list_all2 iso_char iso_template s"

subsection \<open>Concrete inputs\<close>

text \<open>
  A first start on a disk with no file; the two entries of the scenario; the stores after
  one and two inserts and after a clear; a disk whose persistent file is no database; two
  ticks one hour apart, and the worlds after a tick and after a second tick at the same
  instant; disks on which every write fails with \<open>ENOENT\<close>, on which every write but that
  of the persistent file is denied, and on which every write is denied.
\<close>

definition empty_disk :: filesystem where
  "empty_disk = \<lparr>files = (\<lambda>p. None), write_fault = (\<lambda>p. None)\<rparr>"

definition boot_world :: world where
  "boot_world = process_start ''/home/u/.config/networkuptime'' ''/home/u/Downloads'' empty_disk"

definition entry_down :: logEntry where
  "entry_down = \<lparr>status = ''DOWN'', timestamp = ''2024-01-01T00:00:00Z''\<rparr>"

definition entry_up :: logEntry where
  "entry_up = \<lparr>status = ''UP'', timestamp = ''2024-01-01T00:05:00Z''\<rparr>"

definition one_entry_world :: world where
  "one_entry_world = inserts [entry_down] (snd (initializeDatabase boot_world))"

definition two_entries_world :: world where
  "two_entries_world = inserts [entry_down, entry_up] (snd (initializeDatabase boot_world))"




definition csv_dialog :: save_dialog where
  "csv_dialog = \<lparr>canceled = False, filePath = ''/home/u/Downloads/log.csv''\<rparr>"

definition hour_one :: date where
  "hour_one = \<lparr>toISOString = ''2024-01-01T01:00:00.000Z'', toLocaleTimeString = ''1:00:00 AM''\<rparr>"

definition hour_two :: date where
  "hour_two = \<lparr>toISOString = ''2024-01-01T02:00:00.000Z'', toLocaleTimeString = ''2:00:00 AM''\<rparr>"

definition lifetime_events :: "event list" where
  "lifetime_events =
     [Insert entry_down, Tick hour_one, Insert entry_up, QuitAndRestart, Insert entry_down,
      Clear, Insert entry_up, QuitAndRestart, Insert entry_up]"

definition first_archive_world :: world where
  "first_archive_world = snd (autoHourlyBackup hour_one one_entry_world)"

definition second_archive_world :: world where
  "second_archive_world = snd (autoHourlyBackup hour_one (inserts [entry_up] first_archive_world))"

definition enoent_disk :: filesystem where
  "enoent_disk =
     \<lparr>files = (\<lambda>p. None),
      write_fault = (\<lambda>p. Some (JsError (Some ''ENOENT'') ''ENOENT: no such file or directory''))\<rparr>"

definition enoent_world :: world where
  "enoent_world = one_entry_world\<lparr>fs := enoent_disk\<rparr>"

definition archive_denied_disk :: filesystem where
  "archive_denied_disk =
     \<lparr>files = (\<lambda>p. None),
      write_fault = (\<lambda>p. if p = ''/home/u/.config/networkuptime/network_log.db'' then None
                        else Some (JsError (Some ''EACCES'') ''EACCES: permission denied''))\<rparr>"

definition archive_denied_world :: world where
  "archive_denied_world = one_entry_world\<lparr>fs := archive_denied_disk\<rparr>"

definition denied_disk :: filesystem where
  "denied_disk =
     \<lparr>files = (\<lambda>p. None),
      write_fault = (\<lambda>p. Some (JsError (Some ''EACCES'') ''EACCES: permission denied''))\<rparr>"

definition denied_world :: world where
  "denied_world = one_entry_world\<lparr>fs := denied_disk\<rparr>"

section \<open>Properties\<close>

subsection \<open>Auxiliary facts\<close>

lemma max_id_Max: "max_id rows = (if rows = [] then None else Some (Max (set (map log_id rows))))"
proof (cases rows)
  case Nil
  then show ?thesis by (simp add: max_id_def)
next
  case (Cons r rs)
  have "Max (set (log_id r # map log_id rs)) = fold max (map log_id rs) (log_id r)"
    by (rule Max.set_eq_fold)
  with Cons show ?thesis by (simp add: max_id_def)
qed

lemma next_rowid_above: "r \<in> set (table_rows t) \<Longrightarrow> log_id r < next_rowid t"
proof -
  assume r: "r \<in> set (table_rows t)"
  then have ne: "table_rows t \<noteq> []" by auto
  have "log_id r \<le> Max (set (map log_id (table_rows t)))"
    using r by (intro Max_ge) auto
  then show ?thesis
    using ne by (simp add: next_rowid_def max_id_Max)
qed

lemma next_rowid_above_seq: "table_seq t < next_rowid t"
  by (simp add: next_rowid_def)

lemma next_rowid_ok: "table_ok t \<Longrightarrow> next_rowid t = table_seq t + 1"
proof -
  assume ok: "table_ok t"
  show ?thesis
  proof (cases "table_rows t = []")
    case True
    then show ?thesis
      using ok by (simp add: next_rowid_def max_id_Max table_ok_def)
  next
    case False
    have "Max (set (map log_id (table_rows t))) \<le> table_seq t"
      using ok False by (auto simp: table_ok_def list_all_iff)
    then show ?thesis using False by (simp add: next_rowid_def max_id_Max)
  qed
qed

lemma max_id_appended: "max_id (table_rows (appended entry t)) = Some (next_rowid t)"
proof -
  have "\<forall>r\<in>set (table_rows t). log_id r \<le> next_rowid t"
    using next_rowid_above [of _ t] by (auto simp: less_imp_le)
  then have "Max (insert (next_rowid t) (log_id ` set (table_rows t))) = next_rowid t"
    by (intro Max_eqI) auto
  then show ?thesis by (simp add: max_id_Max appended_def)
qed

lemma table_ok_appended: "table_ok t \<Longrightarrow> table_ok (appended entry t)"
  using next_rowid_above [of _ t] next_rowid_above_seq [of t]
  by (auto simp: table_ok_def appended_def list_all_iff less_imp_le)

lemma insert_ready:
  assumes "db w = Some (DbImage (Some t))"
  shows "insert_log entry w =
     (if MAX_ROWID < next_rowid t
      then (Failure ''database or disk is full'',
            console_error ''SQL.js insert failed: database or disk is full'' w)
      else (Success, w\<lparr>db := Some (DbImage (Some (appended entry t))),
                       lastLogId := Some (next_rowid t)\<rparr>))"
  using assms max_id_appended [of entry t]
  by (simp add: insert_log_def run_insert_def exec_max_id_def database_full_def appended_def)

lemma dbPath_simps [simp]:
  "dbPath (w\<lparr>db := d\<rparr>) = dbPath w" "dbPath (w\<lparr>lastLogId := l\<rparr>) = dbPath w"
  "dbPath (w\<lparr>fs := f\<rparr>) = dbPath w" "dbPath (w\<lparr>console := c\<rparr>) = dbPath w"
  "dbPath (w\<lparr>backup_status := b\<rparr>) = dbPath w"
  "dbPath (w\<lparr>windows := n\<rparr>) = dbPath w"
  "dbPath (w\<lparr>interval_set := i\<rparr>) = dbPath w"
  "dbPath (w\<lparr>quit_called := q\<rparr>) = dbPath w"
  "dbPath (console_log s w) = dbPath w" "dbPath (console_error s w) = dbPath w"
  "dbPath (relaunch w) = dbPath w"
  by (simp_all add: dbPath_def console_log_def console_error_def relaunch_def process_start_def)

lemma synced_iff: "synced w \<longleftrightarrow> (\<exists>t. db w = Some (DbImage (Some t)) \<and> lastLogId w = Some (last_id_of t))"
  by (auto simp: synced_def split: option.splits filebuffer.splits)

lemma init_image:
  assumes "files (fs w) (dbPath w) = Some (DbImage (Some t))"
  shows "initializeDatabase w =
    (Returned, w\<lparr>db := Some (DbImage (Some t)), lastLogId := Some (last_id_of t),
        console := console w @ [Log (''Loaded persistent database from: '' @ dbPath w),
                                 Log ''Network logs table ensured.'']\<rparr>)"
  using assms
  by (simp add: initializeDatabase_def readFileSync_def new_Database_def run_create_table_def
      exec_max_id_def console_log_def last_id_of_def split: option.split)

lemma init_absent:
  assumes "files (fs w) (dbPath w) = None"
  shows "initializeDatabase w =
    (Returned, w\<lparr>db := Some (DbImage (Some \<lparr>table_rows = [], table_seq = 0\<rparr>)), lastLogId := Some 0,
        console := console w @ [Log ''Created new in-memory SQL.js database.'',
                                 Log ''Network logs table ensured.'']\<rparr>)"
  using assms
  by (simp add: initializeDatabase_def readFileSync_def new_Database_def run_create_table_def
      exec_max_id_def console_log_def max_id_def split: option.split)


lemma init_returned:
  assumes "fst (initializeDatabase w) = Returned"
  shows "synced (snd (initializeDatabase w)) \<and> fs (snd (initializeDatabase w)) = fs w
     \<and> userData (snd (initializeDatabase w)) = userData w"
  using assms
  by (auto simp add: initializeDatabase_def readFileSync_def new_Database_def run_create_table_def
      exec_max_id_def console_log_def max_id_def last_id_of_def console_error_def Let_def synced_def
      split: option.splits sum.splits filebuffer.splits if_splits)

lemma backup_ok:
  assumes "db w = Some h" "write_fault (fs w) p = None"
  shows "performBackup p w =
     (Returned, w\<lparr>fs := (fs w)\<lparr>files := (files (fs w))(p \<mapsto> h)\<rparr>,
          console := console w @ [Log (''[Persistence] Database saved/backed up to: '' @ p)]\<rparr>)"
  using assms by (simp add: performBackup_def writeFileSync_def db_export_def console_log_def)

lemma backup_enoent:
  assumes "db w = Some h" "write_fault (fs w) p = Some e" "err_code e = Some ''ENOENT''"
  shows "performBackup p w = (Returned, w)"
  using assms by (simp add: performBackup_def writeFileSync_def)

lemma backup_fault:
  assumes "db w = Some h" "write_fault (fs w) p = Some e" "err_code e \<noteq> Some ''ENOENT''"
  shows "performBackup p w = (Thrown (JsError None (''Backup/Export failed: '' @ err_message e)), w)"
  using assms by (simp add: performBackup_def writeFileSync_def)

lemma insert_synced: "synced w \<Longrightarrow> synced (snd (insert_log entry w))"
proof -
  assume "synced w"
  then obtain t where t: "db w = Some (DbImage (Some t))" "lastLogId w = Some (last_id_of t)"
    by (auto simp: synced_iff)
  show ?thesis
    using t max_id_appended [of entry t]
    by (simp add: insert_ready [OF t(1)] synced_def console_error_def last_id_of_def)
qed

lemma insert_frame:
  "fs (snd (insert_log entry w)) = fs w" "userData (snd (insert_log entry w)) = userData w"
  "downloads (snd (insert_log entry w)) = downloads w"
  by (simp_all add: insert_log_def console_error_def split: option.split sum.split)

lemma inserts_frame:
  "fs (inserts es w) = fs w \<and> userData (inserts es w) = userData w \<and> (synced w \<longrightarrow> synced (inserts es w))"
proof (induction es arbitrary: w)
  case Nil
  then show ?case by (simp add: inserts_def)
next
  case (Cons e es)
  have "inserts (e # es) w = inserts es (snd (insert_log e w))" by (simp add: inserts_def)
  then show ?case using Cons [of "snd (insert_log e w)"] by (simp add: insert_frame insert_synced)
qed

lemma round_trip_synced:
  assumes "synced w" "write_fault (fs w) (dbPath w) = None"
  shows "fst (performBackup (dbPath w) w) = Returned"
    and "files (fs (snd (performBackup (dbPath w) w))) (dbPath w) = db w"
    and "fst (initializeDatabase (relaunch (snd (performBackup (dbPath w) w)))) = Returned"
    and "db (flush_and_reload w) = db w"
    and "lastLogId (flush_and_reload w) = lastLogId w"
proof -
  from assms(1) obtain t where t: "db w = Some (DbImage (Some t))" "lastLogId w = Some (last_id_of t)"
    by (auto simp: synced_iff)
  let ?w1 = "snd (performBackup (dbPath w) w)"
  have b: "performBackup (dbPath w) w = (Returned, w\<lparr>fs := (fs w)\<lparr>files := (files (fs w))(dbPath w \<mapsto> DbImage (Some t))\<rparr>,
          console := console w @ [Log (''[Persistence] Database saved/backed up to: '' @ dbPath w)]\<rparr>)"
    by (rule backup_ok [OF t(1) assms(2)])
  show "fst (performBackup (dbPath w) w) = Returned" by (simp add: b)
  show "files (fs ?w1) (dbPath w) = db w" by (simp add: b t)
  have f: "files (fs (relaunch ?w1)) (dbPath (relaunch ?w1)) = Some (DbImage (Some t))"
    by (simp add: b) (simp add: relaunch_def process_start_def)
  note i = init_image [OF f]
  show "fst (initializeDatabase (relaunch ?w1)) = Returned" by (simp add: i)
  show "db (flush_and_reload w) = db w" by (simp add: flush_and_reload_def i t)
  show "lastLogId (flush_and_reload w) = lastLogId w" by (simp add: flush_and_reload_def i t)
qed

lemma load_logs_db: "db w = db w' \<Longrightarrow> fst (load_logs w) = fst (load_logs w')"
  by (simp add: load_logs_def split: option.split sum.split)

lemma insert_log_db:
  assumes "db w = db w'" "lastLogId w = lastLogId w'"
  shows "fst (insert_log entry w) = fst (insert_log entry w')"
    and "db (snd (insert_log entry w)) = db (snd (insert_log entry w'))"
    and "lastLogId (snd (insert_log entry w)) = lastLogId (snd (insert_log entry w'))"
  using assms
  by (simp_all add: insert_log_def console_error_def split: option.split sum.split)

lemma relaunch_simps [simp]:
  "fs (relaunch w) = fs w" "userData (relaunch w) = userData w" "db (relaunch w) = None"
  "lastLogId (relaunch w) = Some 0" "interval_set (relaunch w) = False"
  "quit_called (relaunch w) = False" "windows (relaunch w) = 0" "console (relaunch w) = []"
  by (simp_all add: relaunch_def process_start_def)

lemma load_logs_table:
  "db w = Some (DbImage (Some t)) \<Longrightarrow> load_logs w = (rev (sort_key log_id (table_rows t)), w)"
  by (simp add: load_logs_def exec_select_desc_def)

lemma clear_ready:
  assumes "db w = Some (DbImage (Some t))"
  shows "clear_logs w =
     (case performBackup (dbPath w) (w\<lparr>db := Some (DbImage (Some (t\<lparr>table_rows := []\<rparr>))),
                                       lastLogId := Some 0\<rparr>) of
        (Returned, w2) \<Rightarrow>
          (Success, console_log ''SQL log cleared and persistent file updated.'' w2)
      | (Thrown error, w2) \<Rightarrow>
          (Failure (err_message error),
           console_error (''Error clearing SQL database: '' @ err_message error) w2))"
  using assms by (simp add: clear_logs_def run_delete_all_def)

lemma backup_state:
  "db (snd (performBackup p w)) = db w" "lastLogId (snd (performBackup p w)) = lastLogId w"
  "userData (snd (performBackup p w)) = userData w"
  "write_fault (fs (snd (performBackup p w))) = write_fault (fs w)"
  "windows (snd (performBackup p w)) = windows w"
  "interval_set (snd (performBackup p w)) = interval_set w"
  "quit_called (snd (performBackup p w)) = quit_called w"
  "backup_status (snd (performBackup p w)) = backup_status w"
  by (simp_all add: performBackup_def writeFileSync_def console_log_def
      split: option.split sum.split)

subsection \<open>Snapshot round trip\<close>

text \<open>
  Claim C1. Take any process whose \<open>initializeDatabase\<close> returned, and any sequence of
  inserts after it. If writing the persistent file does not fail, then \<open>performBackup\<close>
  returns and leaves the database image in the file, a new process loads it without error,
  and the loaded store has the same database (the same rows with the same id, timestamp and
  status, and the same \<open>sqlite_sequence\<close> entry) and the same \<open>lastLogId\<close>; the query
  returns the same rows, and an insert after the round trip gets the reply, the database
  and the \<open>lastLogId\<close> it would have got before.
\<close>

theorem snapshot_round_trip:
  assumes "fst (initializeDatabase w0) = Returned"
    and "write_fault (fs w0) (dbPath w0) = None"
    and "w = inserts es (snd (initializeDatabase w0))"
  shows "fst (performBackup (dbPath w) w) = Returned
       \<and> files (fs (snd (performBackup (dbPath w) w))) (dbPath w) = db w
       \<and> fst (initializeDatabase (relaunch (snd (performBackup (dbPath w) w)))) = Returned
       \<and> db (flush_and_reload w) = db w
       \<and> lastLogId (flush_and_reload w) = lastLogId w
       \<and> fst (load_logs (flush_and_reload w)) = fst (load_logs w)
       \<and> fst (insert_log entry (flush_and_reload w)) = fst (insert_log entry w)
       \<and> db (snd (insert_log entry (flush_and_reload w))) = db (snd (insert_log entry w))
       \<and> lastLogId (snd (insert_log entry (flush_and_reload w))) =
           lastLogId (snd (insert_log entry w))"
proof -
  let ?w1 = "snd (initializeDatabase w0)"
  from init_returned [OF assms(1)]
  have s1: "synced ?w1" and f1: "fs ?w1 = fs w0" and u1: "userData ?w1 = userData w0"
    by simp_all
  from inserts_frame [of es ?w1] s1 f1 u1 assms(3)
  have sw: "synced w" and fw: "fs w = fs w0" and uw: "userData w = userData w0"
    by simp_all
  have "dbPath w = dbPath w0" using uw by (simp add: dbPath_def)
  with assms(2) fw have nf: "write_fault (fs w) (dbPath w) = None" by simp
  note rt = round_trip_synced [OF sw nf]
  show ?thesis
    using rt load_logs_db [OF rt(4)] insert_log_db [OF rt(4) rt(5)] by simp
qed

theorem snapshot_round_trip_witness:
  "fst (initializeDatabase boot_world) = Returned
   \<and> write_fault (fs boot_world) (dbPath boot_world) = None
   \<and> db (flush_and_reload two_entries_world) =
       Some (DbImage (Some
         \<lparr>table_rows =
            [\<lparr>log_id = 1, log_timestamp = ''2024-01-01T00:00:00Z'', log_status = ''DOWN''\<rparr>,
             \<lparr>log_id = 2, log_timestamp = ''2024-01-01T00:05:00Z'', log_status = ''UP''\<rparr>],
          table_seq = 2\<rparr>))
   \<and> lastLogId (flush_and_reload two_entries_world) = Some 2"
proof -
  have h1: "fst (initializeDatabase boot_world) = Returned" by code_simp
  have h2: "write_fault (fs boot_world) (dbPath boot_world) = None" by code_simp
  have d: "db two_entries_world = Some (DbImage (Some
         \<lparr>table_rows =
            [\<lparr>log_id = 1, log_timestamp = ''2024-01-01T00:00:00Z'', log_status = ''DOWN''\<rparr>,
             \<lparr>log_id = 2, log_timestamp = ''2024-01-01T00:05:00Z'', log_status = ''UP''\<rparr>],
          table_seq = 2\<rparr>))" by code_simp
  have l: "lastLogId two_entries_world = Some 2" by code_simp
  from snapshot_round_trip [OF h1 h2 two_entries_world_def]
  show ?thesis using h1 h2 d l by simp
qed

subsection \<open>Inserts do not touch the disk\<close>

text \<open>
  Claim C9. The \<open>insert-log\<close> handler leaves the whole file system as it was, whatever its
  reply: no file is written, so the bytes of the persistent file after an insert are the
  bytes before it.
\<close>

theorem insert_log_keeps_disk: "fs (snd (insert_log entry w)) = fs w"
  by (simp add: insert_log_def console_error_def split: option.split sum.split)

subsection \<open>Clearing the log\<close>

text \<open>
  Claim C2. In every state with a store, the \<open>clear-logs\<close> handler leaves the table with
  no rows and \<open>lastLogId = 0\<close>, and the query then returns nothing. When the write of the
  persistent file does not fail, the handler replies success and the file holds the image
  of the emptied store. Whenever the handler replies success (on a disk where a write
  fails with \<open>ENOENT\<close> only at a path that has no file), a new process that loads the
  persistent file gets a store with no entries and \<open>lastLogId = 0\<close>.
\<close>

theorem clear_logs_empties_and_flushes:
  assumes "db w = Some (DbImage (Some t))"
  shows "db (snd (clear_logs w)) = Some (DbImage (Some (t\<lparr>table_rows := []\<rparr>)))
       \<and> lastLogId (snd (clear_logs w)) = Some 0
       \<and> fst (load_logs (snd (clear_logs w))) = []
       \<and> (write_fault (fs w) (dbPath w) = None \<longrightarrow>
            fst (clear_logs w) = Success
          \<and> files (fs (snd (clear_logs w))) (dbPath w) =
              Some (DbImage (Some (t\<lparr>table_rows := []\<rparr>))))
       \<and> (fst (clear_logs w) = Success \<and> write_enoent_absent (fs w) (dbPath w) \<longrightarrow>
            fst (initializeDatabase (relaunch (snd (clear_logs w)))) = Returned
          \<and> fst (load_logs (snd (initializeDatabase (relaunch (snd (clear_logs w)))))) = []
          \<and> lastLogId (snd (initializeDatabase (relaunch (snd (clear_logs w))))) = Some 0)"
proof -
  let ?t = "t\<lparr>table_rows := []\<rparr>"
  let ?w1 = "w\<lparr>db := Some (DbImage (Some ?t)), lastLogId := Some 0\<rparr>"
  let ?c = "snd (clear_logs w)"
  have d1: "db ?w1 = Some (DbImage (Some ?t))" by simp
  note c = clear_ready [OF assms]
  have dbc: "db ?c = Some (DbImage (Some ?t))" and lc: "lastLogId ?c = Some 0"
    using backup_state(1,2) [of "dbPath w" ?w1]
    by (auto simp: c console_log_def console_error_def split: prod.split outcome.split)
  have ll: "fst (load_logs ?c) = []" by (simp add: load_logs_table [OF dbc])
  have last0: "last_id_of ?t = 0" by (simp add: last_id_of_def max_id_def)
  have ok: "fst (clear_logs w) = Success \<and> files (fs ?c) (dbPath w) = Some (DbImage (Some ?t))"
    if nf: "write_fault (fs w) (dbPath w) = None"
  proof -
    have "write_fault (fs ?w1) (dbPath w) = None" using nf by simp
    from backup_ok [OF d1 this] show ?thesis by (simp add: c console_log_def)
  qed
  have re: "fst (initializeDatabase (relaunch ?c)) = Returned
          \<and> fst (load_logs (snd (initializeDatabase (relaunch ?c)))) = []
          \<and> lastLogId (snd (initializeDatabase (relaunch ?c))) = Some 0"
    if s: "fst (clear_logs w) = Success" and e: "write_enoent_absent (fs w) (dbPath w)"
  proof (cases "write_fault (fs w) (dbPath w)")
    case None
    from ok [OF None] have "files (fs (relaunch ?c)) (dbPath (relaunch ?c)) = Some (DbImage (Some ?t))"
      using dbPath_simps(11) [of ?c] by (simp add: c console_log_def backup_ok [OF d1] None)
    from init_image [OF this] show ?thesis
      by (simp add: load_logs_def exec_select_desc_def last0)
  next
    case (Some er)
    have wf1: "write_fault (fs ?w1) (dbPath w) = Some er" using Some by simp
    have en: "err_code er = Some ''ENOENT''"
    proof (rule ccontr)
      assume "err_code er \<noteq> Some ''ENOENT''"
      from backup_fault [OF d1 wf1 this] s show False by (simp add: c)
    qed
    then have ab: "files (fs w) (dbPath w) = None"
      using e Some by (simp add: write_enoent_absent_def)
    have "clear_logs w = (Success, console_log ''SQL log cleared and persistent file updated.'' ?w1)"
      using backup_enoent [OF d1 wf1 en] by (simp add: c)
    then have "files (fs (relaunch ?c)) (dbPath (relaunch ?c)) = None"
      using ab by (simp add: console_log_def dbPath_def)
    from init_absent [OF this] show ?thesis
      by (simp add: load_logs_def exec_select_desc_def)
  qed
  show ?thesis using dbc lc ll ok re by blast
qed

theorem clear_logs_empties_and_flushes_witness:
  "db one_entry_world = Some (DbImage (Some
       \<lparr>table_rows = [\<lparr>log_id = 1, log_timestamp = ''2024-01-01T00:00:00Z'', log_status = ''DOWN''\<rparr>],
        table_seq = 1\<rparr>))
   \<and> write_fault (fs one_entry_world) (dbPath one_entry_world) = None
   \<and> write_enoent_absent (fs one_entry_world) (dbPath one_entry_world)
   \<and> fst (clear_logs one_entry_world) = Success
   \<and> files (fs (snd (clear_logs one_entry_world))) (dbPath one_entry_world) =
         Some (DbImage (Some \<lparr>table_rows = [], table_seq = 1\<rparr>))
   \<and> fst (load_logs (snd (initializeDatabase (relaunch (snd (clear_logs one_entry_world)))))) = []
   \<and> lastLogId (snd (initializeDatabase (relaunch (snd (clear_logs one_entry_world))))) = Some 0"
proof -
  have d: "db one_entry_world = Some (DbImage (Some
       \<lparr>table_rows = [\<lparr>log_id = 1, log_timestamp = ''2024-01-01T00:00:00Z'', log_status = ''DOWN''\<rparr>],
        table_seq = 1\<rparr>))" by code_simp
  have n: "write_fault (fs one_entry_world) (dbPath one_entry_world) = None" by code_simp
  have e: "write_enoent_absent (fs one_entry_world) (dbPath one_entry_world)"
    by (simp add: write_enoent_absent_def n)
  from clear_logs_empties_and_flushes [OF d] n e show ?thesis using d by simp
qed

subsection \<open>The id an insert assigns\<close>


text \<open>
  From a first start on a disk with no persistent file, and through any inserts, the
  table stays well formed and \<open>lastLogId\<close> equals the table's sequence.
\<close>

lemma inserts_in_step:
  assumes "files (fs w0) (dbPath w0) = None"
  shows "store_ok (inserts es (snd (initializeDatabase w0)))
       \<and> lastLogId (inserts es (snd (initializeDatabase w0))) =
           Some (stored_seq (inserts es (snd (initializeDatabase w0))))"
proof -
  have step: "store_ok (snd (insert_log e w)) \<and>
              lastLogId (snd (insert_log e w)) = Some (stored_seq (snd (insert_log e w)))"
    if "store_ok w" "lastLogId w = Some (stored_seq w)" for e w
  proof -
    from that(1) obtain t where t: "db w = Some (DbImage (Some t))" "table_ok t"
      by (auto simp: store_ok_def split: option.splits filebuffer.splits)
    show ?thesis
      using that t table_ok_appended [OF t(2), of e]
      by (simp add: insert_ready [OF t(1)] store_ok_def stored_seq_def console_error_def
          appended_def)
  qed
  have gen: "store_ok w \<Longrightarrow> lastLogId w = Some (stored_seq w) \<Longrightarrow>
        store_ok (inserts es w) \<and> lastLogId (inserts es w) = Some (stored_seq (inserts es w))"
    for w
  proof (induction es arbitrary: w)
    case Nil
    then show ?case by (simp add: inserts_def)
  next
    case (Cons e es)
    have "inserts (e # es) w = inserts es (snd (insert_log e w))" by (simp add: inserts_def)
    with Cons.IH [of "snd (insert_log e w)"] step [OF Cons.prems, of e] show ?case by simp
  qed
  have "store_ok (snd (initializeDatabase w0))
      \<and> lastLogId (snd (initializeDatabase w0)) = Some (stored_seq (snd (initializeDatabase w0)))"
    by (simp add: init_absent [OF assms] store_ok_def stored_seq_def table_ok_def)
  then show ?thesis using gen by blast
qed



subsection \<open>Loading when the persistent file is absent or malformed\<close>






subsection \<open>The two-entry scenario\<close>

text \<open>
  Claim C8. After \<open>DOWN\<close> at 00:00 and \<open>UP\<close> at 00:05 are inserted into an empty store,
  \<open>load-logs\<close> returns the \<open>UP\<close> entry with id 2 before the \<open>DOWN\<close> entry with id 1, and
  \<open>export-log-csv\<close> writes the header \<open>ID,Timestamp_ISO,Status\<close> and then the rows by
  ascending id, each with the timestamp, and only the timestamp, in double quotes.
\<close>

theorem two_entries_query_and_csv:
  "fst (load_logs two_entries_world) =
     [\<lparr>log_id = 2, log_timestamp = ''2024-01-01T00:05:00Z'', log_status = ''UP''\<rparr>,
      \<lparr>log_id = 1, log_timestamp = ''2024-01-01T00:00:00Z'', log_status = ''DOWN''\<rparr>]
   \<and> fst (export_log_csv csv_dialog two_entries_world) =
       Inr (ExportReply True ''CSV exported successfully to: /home/u/Downloads/log.csv'')
   \<and> files (fs (snd (export_log_csv csv_dialog two_entries_world))) ''/home/u/Downloads/log.csv'' =
       Some (Bytes
         (''ID,Timestamp_ISO,Status'' @ [CHR 0x0A] @
          ''1,'' @ [CHR 0x22] @ ''2024-01-01T00:00:00Z'' @ [CHR 0x22] @ '',DOWN'' @ [CHR 0x0A] @
          ''2,'' @ [CHR 0x22] @ ''2024-01-01T00:05:00Z'' @ [CHR 0x22] @ '',UP''))"
  by code_simp

subsection \<open>Ids over the lifetime of the store\<close>

text \<open>Every event keeps the invariant and does not lower the sequence.\<close>

lemma tick_frame:
  "db (snd (autoHourlyBackup now w)) = db w"
  "lastLogId (snd (autoHourlyBackup now w)) = lastLogId w"
  "userData (snd (autoHourlyBackup now w)) = userData w"
  "write_fault (fs (snd (autoHourlyBackup now w))) = write_fault (fs w)"
  "interval_set (snd (autoHourlyBackup now w)) = interval_set w"
  "quit_called (snd (autoHourlyBackup now w)) = quit_called w"
  using backup_state [of "dbPath w" w]
        backup_state [of "backupFilePath now (snd (performBackup (dbPath w) w))"
                         "snd (performBackup (dbPath w) w)"]
  by (auto simp: autoHourlyBackup_def console_log_def console_error_def Let_def
      split: option.split prod.split outcome.split)

lemma dbPath_userData: "userData w' = userData w \<Longrightarrow> dbPath w' = dbPath w"
  by (simp add: dbPath_def)

lemma step_insert_inv:
  assumes "lifetime_inv w t"
  shows "(MAX_ROWID < next_rowid t \<longrightarrow>
            lifetime_inv (step (Insert entry) w) t \<and> new_ids (Insert entry) w = [])
       \<and> (\<not> MAX_ROWID < next_rowid t \<longrightarrow>
            lifetime_inv (step (Insert entry) w) (appended entry t)
          \<and> new_ids (Insert entry) w = [table_seq t + 1]
          \<and> table_seq (appended entry t) = table_seq t + 1)"
proof -
  from assms have d: "db w = Some (DbImage (Some t))" and ok: "table_ok t"
    and nf: "write_fault (fs w) (dbPath w) = None" by (simp_all add: lifetime_inv_def)
  note i = insert_ready [OF d, of entry]
  note n = next_rowid_ok [OF ok]
  show ?thesis
    using d nf table_ok_appended [OF ok, of entry] ok
    by (auto simp: i n lifetime_inv_def new_ids_def stored_rows_def console_error_def appended_def)
qed

lemma step_clear_inv:
  assumes "lifetime_inv w t"
  shows "lifetime_inv (step Clear w) (t\<lparr>table_rows := []\<rparr>) \<and> new_ids Clear w = []"
proof -
  from assms have d: "db w = Some (DbImage (Some t))" and ok: "table_ok t"
    and nf: "write_fault (fs w) (dbPath w) = None" by (simp_all add: lifetime_inv_def)
  let ?t = "t\<lparr>table_rows := []\<rparr>"
  let ?w1 = "w\<lparr>db := Some (DbImage (Some ?t)), lastLogId := Some 0\<rparr>"
  have d1: "db ?w1 = Some (DbImage (Some ?t))" by simp
  have n1: "write_fault (fs ?w1) (dbPath w) = None" using nf by simp
  have c: "clear_logs w = (Success, console_log ''SQL log cleared and persistent file updated.''
      (?w1\<lparr>fs := (fs ?w1)\<lparr>files := (files (fs ?w1))(dbPath w \<mapsto> DbImage (Some ?t))\<rparr>,
          console := console ?w1 @ [Log (''[Persistence] Database saved/backed up to: '' @ dbPath w)]\<rparr>))"
    by (simp add: clear_ready [OF d] backup_ok [OF d1 n1])
  have "table_ok ?t" using ok by (simp add: table_ok_def)
  then show ?thesis
    using nf by (simp add: c lifetime_inv_def new_ids_def stored_rows_def console_log_def)
qed

lemma step_tick_inv:
  assumes "lifetime_inv w t"
  shows "lifetime_inv (step (Tick now) w) t \<and> new_ids (Tick now) w = []"
  using assms tick_frame [of now w] dbPath_userData [OF tick_frame(3), of now w]
  by (simp add: lifetime_inv_def new_ids_def stored_rows_def)

lemma step_restart_inv:
  assumes "lifetime_inv w t"
  shows "lifetime_inv (step QuitAndRestart w) t \<and> new_ids QuitAndRestart w = []"
proof -
  from assms have d: "db w = Some (DbImage (Some t))" and ok: "table_ok t"
    and nf: "write_fault (fs w) (dbPath w) = None" by (simp_all add: lifetime_inv_def)
  let ?q = "relaunch (app_quit w)"
  have aq: "app_quit w =
      (console_log ''Final save to persistent file complete before quit.''
         (w\<lparr>fs := (fs w)\<lparr>files := (files (fs w))(dbPath w \<mapsto> DbImage (Some t))\<rparr>,
            console := console w @
              [Log (''[Persistence] Database saved/backed up to: '' @ dbPath w)]\<rparr>))
        \<lparr>quit_called := True\<rparr>"
    by (simp add: app_quit_def before_quit_def d backup_ok [OF d nf])
  have pq: "dbPath ?q = dbPath w"
    by (simp add: aq)
  have q: "files (fs ?q) (dbPath ?q) = Some (DbImage (Some t))"
          "write_fault (fs ?q) (dbPath ?q) = None"
    unfolding pq using nf by (simp_all add: aq console_log_def)
  have "db (whenReady ?q) = Some (DbImage (Some t))
      \<and> write_fault (fs (whenReady ?q)) (dbPath (whenReady ?q)) = None"
    using q(2) by (simp add: whenReady_def init_image [OF q(1)] createWindow_def console_log_def
        dbPath_def)
  then show ?thesis using ok d
    by (simp add: lifetime_inv_def new_ids_def stored_rows_def)
qed

lemma step_inv:
  assumes "lifetime_inv w t"
  shows "\<exists>t'. lifetime_inv (step ev w) t' \<and> table_seq t \<le> table_seq t'
          \<and> (\<forall>i\<in>set (new_ids ev w). table_seq t < i \<and> i \<le> table_seq t')
          \<and> length (new_ids ev w) \<le> 1"
proof (cases ev)
  case (Insert entry)
  show ?thesis
  proof (cases "MAX_ROWID < next_rowid t")
    case True
    with step_insert_inv [OF assms, of entry] Insert show ?thesis by auto
  next
    case False
    with step_insert_inv [OF assms, of entry] Insert show ?thesis
      by (intro exI [of _ "appended entry t"]) auto
  qed
next
  case Clear
  with step_clear_inv [OF assms] show ?thesis
    by (intro exI [of _ "t\<lparr>table_rows := []\<rparr>"]) auto
next
  case (Tick now)
  with step_tick_inv [OF assms, of now] show ?thesis by (intro exI [of _ t]) auto
next
  case QuitAndRestart
  with step_restart_inv [OF assms] show ?thesis by (intro exI [of _ t]) auto
qed

lemma assigned_ids_increasing:
  assumes "lifetime_inv w t"
  shows "sorted_wrt (<) (assigned_ids evs w) \<and> (\<forall>i\<in>set (assigned_ids evs w). table_seq t < i)"
  using assms
proof (induction evs arbitrary: w t)
  case Nil
  then show ?case by simp
next
  case (Cons ev evs)
  from step_inv [OF Cons.prems, of ev] obtain t' where
    inv: "lifetime_inv (step ev w) t'" and le: "table_seq t \<le> table_seq t'"
    and new: "\<forall>i\<in>set (new_ids ev w). table_seq t < i \<and> i \<le> table_seq t'"
    and len: "length (new_ids ev w) \<le> 1" by blast
  from Cons.IH [OF inv] have
    s: "sorted_wrt (<) (assigned_ids evs (step ev w))"
    and b: "\<forall>i\<in>set (assigned_ids evs (step ev w)). table_seq t' < i" by simp_all
  have s1: "sorted_wrt (<) (new_ids ev w)"
    using len by (cases "new_ids ev w") auto
  show ?case
    using s s1 b new le by (fastforce simp: sorted_wrt_append)
qed

text \<open>
  Claim C4. Take a process whose \<open>initializeDatabase\<close> returned with a well-formed table,
  on a disk where the write of the persistent file does not fail, and any lifetime after
  it. The ids the inserts assign are strictly increasing in the order of assignment, so
  none is assigned twice, also across a clear and across a flush followed by a reload; and
  each of them is greater than every id in the loaded table and than the largest id that
  table had ever held.
\<close>

theorem ids_strictly_increasing:
  assumes "fst (initializeDatabase w0) = Returned"
    and "store_ok (snd (initializeDatabase w0))"
    and "write_fault (fs w0) (dbPath w0) = None"
    and "w = snd (initializeDatabase w0)"
  shows "sorted_wrt (<) (assigned_ids evs w)
       \<and> list_all (\<lambda>i. stored_seq w < i \<and> list_all (\<lambda>r. log_id r < i) (stored_rows w))
           (assigned_ids evs w)"
proof -
  from assms(2,4) obtain t where t: "db w = Some (DbImage (Some t))" "table_ok t"
    by (auto simp: store_ok_def split: option.splits filebuffer.splits)
  from init_returned [OF assms(1)] assms(3,4)
  have "write_fault (fs w) (dbPath w) = None" by (simp add: dbPath_def)
  with t have inv: "lifetime_inv w t" by (simp add: lifetime_inv_def)
  note a = assigned_ids_increasing [OF inv, of evs]
  have "\<forall>r\<in>set (table_rows t). log_id r \<le> table_seq t"
    using t(2) by (simp add: table_ok_def list_all_iff)
  then show ?thesis
    using a t(1) by (fastforce simp: list_all_iff stored_seq_def stored_rows_def)
qed

theorem ids_strictly_increasing_witness:
  "fst (initializeDatabase boot_world) = Returned
   \<and> store_ok (snd (initializeDatabase boot_world))
   \<and> write_fault (fs boot_world) (dbPath boot_world) = None
   \<and> assigned_ids lifetime_events (snd (initializeDatabase boot_world)) = [1, 2, 3, 4, 5]
   \<and> sorted_wrt (<) (assigned_ids lifetime_events (snd (initializeDatabase boot_world)))"
proof -
  have h1: "fst (initializeDatabase boot_world) = Returned" by code_simp
  have h2: "store_ok (snd (initializeDatabase boot_world))" by code_simp
  have h3: "write_fault (fs boot_world) (dbPath boot_world) = None" by code_simp
  have v: "assigned_ids lifetime_events (snd (initializeDatabase boot_world)) = [1, 2, 3, 4, 5]"
    by code_simp
  from ids_strictly_increasing [OF h1 h2 h3 refl, of lifetime_events]
  show ?thesis using h1 h2 h3 v by simp
qed

subsection \<open>Archives\<close>

text \<open>
  On strings of the shape \<open>iso_format\<close> the replacement of colons and dots by hyphens
  loses nothing, so the file name determines the instant.
\<close>

lemma replace_iso_char:
  assumes "iso_char p c1" "iso_char p c2"
    and "(if c1 = CHR '':'' \<or> c1 = CHR ''.'' then CHR ''-'' else c1) =
         (if c2 = CHR '':'' \<or> c2 = CHR ''.'' then CHR ''-'' else c2)"
  shows "c1 = c2"
  using assms by (auto simp: iso_char_def is_digit_def split: if_splits)

lemma replace_inj_on_template:
  assumes "list_all2 iso_char p s1" "list_all2 iso_char p s2"
    and "replace_colon_dot s1 = replace_colon_dot s2"
  shows "s1 = s2"
  using assms
proof (induction p arbitrary: s1 s2)
  case Nil
  then show ?case by simp
next
  case (Cons a p)
  from Cons.prems(1) obtain c1 r1 where s1: "s1 = c1 # r1" "iso_char a c1" "list_all2 iso_char p r1"
    by (auto simp: list_all2_Cons1)
  from Cons.prems(2) obtain c2 r2 where s2: "s2 = c2 # r2" "iso_char a c2" "list_all2 iso_char p r2"
    by (auto simp: list_all2_Cons1)
  from Cons.prems(3) s1(1) s2(1) have
    h: "(if c1 = CHR '':'' \<or> c1 = CHR ''.'' then CHR ''-'' else c1) =
         (if c2 = CHR '':'' \<or> c2 = CHR ''.'' then CHR ''-'' else c2)"
    and t: "replace_colon_dot r1 = replace_colon_dot r2"
    by (simp_all add: replace_colon_dot_def)
  from replace_iso_char [OF s1(2) s2(2) h] Cons.IH [OF s1(3) s2(3) t] s1(1) s2(1)
  show ?case by simp
qed

lemma replace_inj_iso:
  "iso_format s1 \<Longrightarrow> iso_format s2 \<Longrightarrow> replace_colon_dot s1 = replace_colon_dot s2 \<Longrightarrow> s1 = s2"
  unfolding iso_format_def by (rule replace_inj_on_template)

lemma backupFilePath_inj:
  "backupFilePath now1 w = backupFilePath now2 w \<longleftrightarrow>
   replace_colon_dot (toISOString now1) = replace_colon_dot (toISOString now2)"
  by (simp add: backupFilePath_def backupFileName_def)

lemma backupFilePath_not_dbPath:
  "userData w = userData w' \<Longrightarrow> backupFilePath now w \<noteq> dbPath w'"
  by (simp add: backupFilePath_def backupDir_def dbPath_def)

lemma backupFilePath_userData: "userData w' = userData w \<Longrightarrow> backupFilePath now w' = backupFilePath now w"
  by (simp add: backupFilePath_def backupDir_def)

lemma insert_keeps_db: "db w = Some h \<Longrightarrow> \<exists>h'. db (snd (insert_log entry w)) = Some h'"
  by (simp add: insert_log_def console_error_def split: option.split sum.split)

lemma inserts_keep_db: "db w = Some h \<Longrightarrow> \<exists>h'. db (inserts es w) = Some h'"
proof (induction es arbitrary: w h)
  case Nil
  then show ?case by (simp add: inserts_def)
next
  case (Cons e es)
  from insert_keeps_db [OF Cons.prems, of e] obtain h1 where "db (snd (insert_log e w)) = Some h1" ..
  from Cons.IH [OF this] show ?case by (simp add: inserts_def)
qed

lemma tick_ok:
  assumes "db w = Some h"
    and "write_fault (fs w) (dbPath w) = None"
    and "write_fault (fs w) (backupFilePath now w) = None"
  shows "fst (autoHourlyBackup now w) = Returned"
    and "files (fs (snd (autoHourlyBackup now w))) =
           (files (fs w))(dbPath w \<mapsto> h, backupFilePath now w \<mapsto> h)"
proof -
  obtain o1 w1 where b1: "performBackup (dbPath w) w = (o1, w1)" by force
  from backup_ok [OF assms(1,2)] b1 have o1: "o1 = Returned"
    and f1: "files (fs w1) = (files (fs w))(dbPath w \<mapsto> h)" by auto
  from backup_state [of "dbPath w" w] b1 assms(1) have d1: "db w1 = Some h"
    and u1: "userData w1 = userData w" and wf1: "write_fault (fs w1) = write_fault (fs w)"
    by simp_all
  have p: "backupFilePath now w1 = backupFilePath now w"
    by (rule backupFilePath_userData [OF u1])
  obtain o2 w2 where b2: "performBackup (backupFilePath now w) w1 = (o2, w2)" by force
  have n1: "write_fault (fs w1) (backupFilePath now w) = None" using assms(3) wf1 by simp
  from backup_ok [OF d1 n1] b2 have o2: "o2 = Returned"
    and f2: "files (fs w2) = (files (fs w1))(backupFilePath now w \<mapsto> h)" by auto
  have a: "autoHourlyBackup now w =
     (let w3 = console_log
                  (''[Auto Backup] Archival backup created successfully: '' @ backupFileName now) w2
      in (Returned,
          if 0 < windows w3
          then w3\<lparr>backup_status := backup_status w3 @
                       [''Last Auto Backup: '' @ toLocaleTimeString now]\<rparr>
          else w3))"
    unfolding autoHourlyBackup_def
    by (simp only: assms(1) b1 o1 p b2 o2 option.case prod.case outcome.case)
  show "fst (autoHourlyBackup now w) = Returned"
    unfolding a by (simp add: Let_def)
  show "files (fs (snd (autoHourlyBackup now w))) =
           (files (fs w))(dbPath w \<mapsto> h, backupFilePath now w \<mapsto> h)"
    unfolding a by (simp add: Let_def console_log_def f1 f2)
qed

lemma backup_other_path:
  "q \<noteq> p \<Longrightarrow> files (fs (snd (performBackup p w))) q = files (fs w) q"
  by (simp add: performBackup_def writeFileSync_def console_log_def split: option.split sum.split)

lemma tick_flushes:
  assumes "db w = Some h" and "write_fault (fs w) (dbPath w) = None"
  shows "files (fs (snd (autoHourlyBackup now w))) (dbPath w) = Some h"
proof -
  obtain o1 w1 where b1: "performBackup (dbPath w) w = (o1, w1)" by force
  from backup_ok [OF assms] b1 have o1: "o1 = Returned"
    and f1: "files (fs w1) (dbPath w) = Some h" by auto
  from backup_state(3) [of "dbPath w" w] b1 have u1: "userData w1 = userData w" by simp
  have ne: "dbPath w \<noteq> backupFilePath now w1"
    using backupFilePath_not_dbPath [of w1 w now] u1 by simp
  obtain o2 w2 where b2: "performBackup (backupFilePath now w1) w1 = (o2, w2)" by force
  from backup_other_path [OF ne, of w1] b2 f1 have f2: "files (fs w2) (dbPath w) = Some h"
    by simp
  show ?thesis
    unfolding autoHourlyBackup_def
    by (simp add: assms(1) b1 o1 b2 f2 Let_def console_log_def console_error_def
        split: outcome.split)
qed

text \<open>
  Counterexample to claim C6 as it is stated. A store with one entry is archived by a
  tick; a second entry is inserted; a second tick whose \<open>Date\<close> has the same ISO string
  runs. It builds the same file name, returns normally, logs a success, and the one archive
  file now holds the image with two entries: the first archive is overwritten, and
  nothing reports it.
\<close>

theorem archive_same_instant_counterexample:
  "files (fs first_archive_world)
     ''/home/u/.config/networkuptime/network_backups/network_log_backup_2024-01-01T01-00-00-000Z.db'' =
     Some (DbImage (Some
       \<lparr>table_rows = [\<lparr>log_id = 1, log_timestamp = ''2024-01-01T00:00:00Z'', log_status = ''DOWN''\<rparr>],
        table_seq = 1\<rparr>))
   \<and> fst (autoHourlyBackup hour_one (inserts [entry_up] first_archive_world)) = Returned
   \<and> backupFilePath hour_one (inserts [entry_up] first_archive_world) =
     ''/home/u/.config/networkuptime/network_backups/network_log_backup_2024-01-01T01-00-00-000Z.db''
   \<and> files (fs second_archive_world)
     ''/home/u/.config/networkuptime/network_backups/network_log_backup_2024-01-01T01-00-00-000Z.db'' =
     Some (DbImage (Some
       \<lparr>table_rows = [\<lparr>log_id = 1, log_timestamp = ''2024-01-01T00:00:00Z'', log_status = ''DOWN''\<rparr>,
                      \<lparr>log_id = 2, log_timestamp = ''2024-01-01T00:05:00Z'', log_status = ''UP''\<rparr>],
        table_seq = 2\<rparr>))
   \<and> drop 5 (console second_archive_world) =
     [Log ''[Persistence] Database saved/backed up to: /home/u/.config/networkuptime/network_log.db'',
      Log ''[Persistence] Database saved/backed up to: /home/u/.config/networkuptime/network_backups/network_log_backup_2024-01-01T01-00-00-000Z.db'',
      Log ''[Auto Backup] Archival backup created successfully: network_log_backup_2024-01-01T01-00-00-000Z.db'']"
  by code_simp

text \<open>
  Claim C6, amended. Take two ticks on a store, with any inserts between them, on a disk
  where the writes of the persistent file and of the two archive files do not fail. Each
  tick writes the image of the store at its time to the archive file named by its ISO
  string. If the two ISO strings differ (they have millisecond granularity), the two
  archive paths differ and the second tick leaves the first archive as the first tick
  wrote it. (With equal ISO strings the path is the same, and the second conjunct says
  that it then holds the second image.)
\<close>

theorem archives_of_distinct_instants:
  assumes "db w = Some h"
    and "iso_format (toISOString now1)" and "iso_format (toISOString now2)"
    and "write_fault (fs w) (dbPath w) = None"
    and "write_fault (fs w) (backupFilePath now1 w) = None"
    and "write_fault (fs w) (backupFilePath now2 w) = None"
    and "w1 = snd (autoHourlyBackup now1 w)"
    and "w2 = snd (autoHourlyBackup now2 (inserts es w1))"
  shows "files (fs w1) (backupFilePath now1 w) = Some h
       \<and> files (fs w2) (backupFilePath now2 w) = db (inserts es w1)
       \<and> (toISOString now1 \<noteq> toISOString now2 \<longrightarrow>
            backupFilePath now1 w \<noteq> backupFilePath now2 w
          \<and> files (fs w2) (backupFilePath now1 w) = Some h)"
proof -
  let ?m = "inserts es w1"
  note t1 = tick_ok [OF assms(1,4,5)]
  have a1: "files (fs w1) (backupFilePath now1 w) = Some h" by (simp add: assms(7) t1(2))
  have u1: "userData w1 = userData w" and wf1: "write_fault (fs w1) = write_fault (fs w)"
    by (simp_all add: assms(7) tick_frame)
  from inserts_frame [of es w1] have fm: "fs ?m = fs w1" and um: "userData ?m = userData w"
    using u1 by simp_all
  have pm: "dbPath ?m = dbPath w" "backupFilePath now2 ?m = backupFilePath now2 w"
    using dbPath_userData [OF um] backupFilePath_userData [OF um] by simp_all
  have "db w1 = Some h" by (simp add: assms(1,7) tick_frame)
  from inserts_keep_db [OF this, of es] obtain h' where dm: "db ?m = Some h'" ..
  have n0: "write_fault (fs ?m) (dbPath ?m) = None"
    and n2: "write_fault (fs ?m) (backupFilePath now2 ?m) = None"
    using assms(4,6) by (simp_all add: fm wf1 pm)
  note t2 = tick_ok [OF dm n0 n2]
  have f2: "files (fs w2) = (files (fs w1))(dbPath w \<mapsto> h', backupFilePath now2 w \<mapsto> h')"
    by (simp add: assms(8) t2(2) pm fm)
  have a2: "files (fs w2) (backupFilePath now2 w) = db ?m" by (simp add: f2 dm)
  have a3: "backupFilePath now1 w \<noteq> backupFilePath now2 w
          \<and> files (fs w2) (backupFilePath now1 w) = Some h"
    if ne: "toISOString now1 \<noteq> toISOString now2"
  proof -
    have "replace_colon_dot (toISOString now1) \<noteq> replace_colon_dot (toISOString now2)"
      using replace_inj_iso [OF assms(2,3)] ne by blast
    then have d: "backupFilePath now1 w \<noteq> backupFilePath now2 w"
      by (simp add: backupFilePath_inj)
    have "backupFilePath now1 w \<noteq> dbPath w" by (rule backupFilePath_not_dbPath) simp
    with d a1 show ?thesis by (simp add: f2)
  qed
  show ?thesis using a1 a2 a3 by blast
qed

theorem archives_of_distinct_instants_witness:
  "iso_format (toISOString hour_one) \<and> iso_format (toISOString hour_two)
   \<and> toISOString hour_one \<noteq> toISOString hour_two
   \<and> write_fault (fs one_entry_world) (dbPath one_entry_world) = None
   \<and> write_fault (fs one_entry_world) (backupFilePath hour_one one_entry_world) = None
   \<and> write_fault (fs one_entry_world) (backupFilePath hour_two one_entry_world) = None
   \<and> files (fs (snd (autoHourlyBackup hour_two (inserts [entry_up] first_archive_world))))
        (backupFilePath hour_one one_entry_world) = db one_entry_world
   \<and> files (fs (snd (autoHourlyBackup hour_two (inserts [entry_up] first_archive_world))))
        (backupFilePath hour_two one_entry_world) = db (inserts [entry_up] first_archive_world)"
proof -
  let ?h = "DbImage (Some
       \<lparr>table_rows = [\<lparr>log_id = 1, log_timestamp = ''2024-01-01T00:00:00Z'', log_status = ''DOWN''\<rparr>],
        table_seq = 1\<rparr>)"
  have d: "db one_entry_world = Some ?h" by code_simp
  have i1: "iso_format (toISOString hour_one)" by code_simp
  have i2: "iso_format (toISOString hour_two)" by code_simp
  have ne: "toISOString hour_one \<noteq> toISOString hour_two" by code_simp
  have n0: "write_fault (fs one_entry_world) (dbPath one_entry_world) = None" by code_simp
  have n1: "write_fault (fs one_entry_world) (backupFilePath hour_one one_entry_world) = None"
    by code_simp
  have n2: "write_fault (fs one_entry_world) (backupFilePath hour_two one_entry_world) = None"
    by code_simp
  from archives_of_distinct_instants [OF d i1 i2 n0 n1 n2 first_archive_world_def refl, of "[entry_up]"]
  show ?thesis using d i1 i2 ne n0 n1 n2 by simp
qed

subsection \<open>Failures during a tick\<close>

text \<open>
  Counterexample to claim C7 as it is stated. Every write fails with \<open>ENOENT\<close> (the data
  directory is gone). The tick returns normally; neither the persistent file nor the
  archive is written; the console gets no error line, only the line that the archival
  backup was created successfully: \<open>performBackup\<close> swallows \<open>ENOENT\<close> by design.
\<close>

theorem tick_failure_unreported_counterexample:
  "write_fault (fs enoent_world) (dbPath enoent_world) =
     Some (JsError (Some ''ENOENT'') ''ENOENT: no such file or directory'')
   \<and> write_fault (fs enoent_world) (backupFilePath hour_one enoent_world) =
     Some (JsError (Some ''ENOENT'') ''ENOENT: no such file or directory'')
   \<and> fst (autoHourlyBackup hour_one enoent_world) = Returned
   \<and> files (fs (snd (autoHourlyBackup hour_one enoent_world))) (dbPath enoent_world) = None
   \<and> files (fs (snd (autoHourlyBackup hour_one enoent_world)))
        (backupFilePath hour_one enoent_world) = None
   \<and> console (snd (autoHourlyBackup hour_one enoent_world)) =
       console enoent_world @
         [Log ''[Auto Backup] Archival backup created successfully: network_log_backup_2024-01-01T01-00-00-000Z.db'']"
  by code_simp

text \<open>
  Claim C7, amended. Take a tick on a store whose flush does not throw (the write of the
  persistent file succeeds, or fails with \<open>ENOENT\<close>, which \<open>performBackup\<close> swallows without
  a log line). The tick returns normally and leaves \<open>db\<close>, \<open>lastLogId\<close>, the timer and the
  quit flag as they were. If the write of the archive fails, the disk is as the flush left
  it and the console gets exactly one more line: the error line \<open>Auto Backup failed\<close> when
  the error is not \<open>ENOENT\<close>, and, when it is, the line that the archive was created. A
  following tick, on a disk where the write of the persistent file succeeds again, writes
  the image of the store to the persistent file.
\<close>

theorem tick_failure_handling:
  assumes "db w = Some h"
    and "backup_returns (fs w) (dbPath w)"
    and "w1 = snd (performBackup (dbPath w) w)"
    and "w' = snd (autoHourlyBackup now w)"
  shows "fst (autoHourlyBackup now w) = Returned
       \<and> db w' = db w \<and> lastLogId w' = lastLogId w
       \<and> interval_set w' = interval_set w \<and> quit_called w' = quit_called w
       \<and> (case write_fault (fs w) (backupFilePath now w) of
            None \<Rightarrow> files (fs w') (backupFilePath now w) = Some h
          | Some e \<Rightarrow>
              fs w' = fs w1
            \<and> console w' = console w1 @
                [if err_code e \<noteq> Some ''ENOENT''
                 then Err (''Auto Backup failed: Backup/Export failed: '' @ err_message e)
                 else Log (''[Auto Backup] Archival backup created successfully: '' @
                           backupFileName now)])
       \<and> (g (dbPath w) = None \<longrightarrow>
            files (fs (snd (autoHourlyBackup now2 (repaired g w')))) (dbPath w) = Some h)"
proof -
  obtain o1 where b1: "performBackup (dbPath w) w = (o1, w1)"
    using assms(3) by (cases "performBackup (dbPath w) w") simp
  have o1: "o1 = Returned"
  proof (cases "write_fault (fs w) (dbPath w)")
    case None
    from backup_ok [OF assms(1) None] b1 show ?thesis by simp
  next
    case (Some e)
    with assms(2) have "err_code e = Some ''ENOENT''" by (simp add: backup_returns_def)
    from backup_enoent [OF assms(1) Some this] b1 show ?thesis by simp
  qed
  from backup_state [of "dbPath w" w] b1 assms(1) have d1: "db w1 = Some h"
    and u1: "userData w1 = userData w" and wf1: "write_fault (fs w1) = write_fault (fs w)"
    by simp_all
  have p: "backupFilePath now w1 = backupFilePath now w"
    by (rule backupFilePath_userData [OF u1])
  obtain o2 w2 where b2: "performBackup (backupFilePath now w) w1 = (o2, w2)" by force
  have a: "autoHourlyBackup now w =
     (case (o2, w2) of
        (Returned, w2) \<Rightarrow>
          (let w3 = console_log
                (''[Auto Backup] Archival backup created successfully: '' @ backupFileName now) w2
           in (Returned,
               if 0 < windows w3
               then w3\<lparr>backup_status := backup_status w3 @
                       [''Last Auto Backup: '' @ toLocaleTimeString now]\<rparr>
               else w3))
      | (Thrown error, w2) \<Rightarrow>
          (Returned, console_error (''Auto Backup failed: '' @ err_message error) w2))"
    unfolding autoHourlyBackup_def
    by (simp only: assms(1) b1 o1 p b2 option.case prod.case outcome.case)
  have r: "fst (autoHourlyBackup now w) = Returned"
    unfolding a by (simp add: Let_def split: outcome.split)
  have fr: "db w' = db w \<and> lastLogId w' = lastLogId w
       \<and> interval_set w' = interval_set w \<and> quit_called w' = quit_called w"
    by (simp add: assms(4) tick_frame)
  have ar: "case write_fault (fs w) (backupFilePath now w) of
            None \<Rightarrow> files (fs w') (backupFilePath now w) = Some h
          | Some e \<Rightarrow>
              fs w' = fs w1
            \<and> console w' = console w1 @
                [if err_code e \<noteq> Some ''ENOENT''
                 then Err (''Auto Backup failed: Backup/Export failed: '' @ err_message e)
                 else Log (''[Auto Backup] Archival backup created successfully: '' @
                           backupFileName now)]"
  proof (cases "write_fault (fs w) (backupFilePath now w)")
    case None
    then have "write_fault (fs w1) (backupFilePath now w) = None" by (simp add: wf1)
    from backup_ok [OF d1 this] b2 have "o2 = Returned"
      and "files (fs w2) (backupFilePath now w) = Some h" by auto
    then show ?thesis
      unfolding assms(4) a by (simp add: None Let_def console_log_def)
  next
    case (Some e)
    then have f: "write_fault (fs w1) (backupFilePath now w) = Some e" by (simp add: wf1)
    show ?thesis
    proof (cases "err_code e = Some ''ENOENT''")
      case True
      from backup_enoent [OF d1 f True] b2 have "o2 = Returned" "w2 = w1" by auto
      then show ?thesis
        unfolding assms(4) a by (simp add: Some True Let_def console_log_def)
    next
      case False
      from backup_fault [OF d1 f False] b2
      have "o2 = Thrown (JsError None (''Backup/Export failed: '' @ err_message e))" "w2 = w1"
        by auto
      then show ?thesis
        unfolding assms(4) a by (simp add: Some False Let_def console_error_def)
    qed
  qed
  have nx: "files (fs (snd (autoHourlyBackup now2 (repaired g w')))) (dbPath w) = Some h"
    if g: "g (dbPath w) = None"
  proof -
    have d: "db (repaired g w') = Some h" using fr assms(1) by (simp add: repaired_def)
    have "userData w' = userData w" by (simp add: assms(4) tick_frame)
    then have pp: "dbPath (repaired g w') = dbPath w" by (simp add: repaired_def dbPath_def)
    have n: "write_fault (fs (repaired g w')) (dbPath (repaired g w')) = None"
      unfolding pp using g by (simp add: repaired_def)
    from tick_flushes [OF d n, of now2] show ?thesis unfolding pp .
  qed
  show ?thesis using r fr ar nx by blast
qed

theorem tick_failure_handling_witness:
  "backup_returns (fs archive_denied_world) (dbPath archive_denied_world)
   \<and> fst (autoHourlyBackup hour_one archive_denied_world) = Returned
   \<and> db (snd (autoHourlyBackup hour_one archive_denied_world)) = db archive_denied_world
   \<and> console (snd (autoHourlyBackup hour_one archive_denied_world)) =
       console (snd (performBackup (dbPath archive_denied_world) archive_denied_world)) @
         [Err ''Auto Backup failed: Backup/Export failed: EACCES: permission denied'']
   \<and> files (fs (snd (autoHourlyBackup hour_two
               (repaired (\<lambda>p. None) (snd (autoHourlyBackup hour_one archive_denied_world))))))
         (dbPath archive_denied_world) = db archive_denied_world"
proof -
  let ?h = "DbImage (Some
       \<lparr>table_rows = [\<lparr>log_id = 1, log_timestamp = ''2024-01-01T00:00:00Z'', log_status = ''DOWN''\<rparr>],
        table_seq = 1\<rparr>)"
  have d: "db archive_denied_world = Some ?h" by code_simp
  have b: "backup_returns (fs archive_denied_world) (dbPath archive_denied_world)" by code_simp
  have f: "write_fault (fs archive_denied_world) (backupFilePath hour_one archive_denied_world) =
      Some (JsError (Some ''EACCES'') ''EACCES: permission denied'')" by code_simp
  from tick_failure_handling [OF d b refl refl, of hour_one "\<lambda>p. None" hour_two]
  show ?thesis using d b by (simp add: f)
qed

text \<open>
  What the amended claim leaves out: a flush that fails with another error than \<open>ENOENT\<close>.
  The first \<open>performBackup\<close> of \<open>autoHourlyBackup\<close> is outside the \<open>try\<close>, so the error leaves
  the function, nothing is logged and the archive step does not run.
\<close>

lemma tick_flush_error_escapes:
  "fst (autoHourlyBackup hour_one denied_world) =
     Thrown (JsError None ''Backup/Export failed: EACCES: permission denied'')
   \<and> console (snd (autoHourlyBackup hour_one denied_world)) = console denied_world
   \<and> files (fs (snd (autoHourlyBackup hour_one denied_world)))
        (backupFilePath hour_one denied_world) = None"
  by code_simp

end
